theory Spec2Isabelle
  imports Complex_Main "HOL-Library.Char_ord" "HOL-Library.List_Lexorder" "HOL-Library.Multiset"
begin

section \<open>The users table\<close>

text \<open>
  \<^verbatim>\<open>server.js\<close> keeps one SQLite table:
  \<^verbatim>\<open>
  CREATE TABLE IF NOT EXISTS users (
    id INTEGER PRIMARY KEY AUTOINCREMENT,
    username TEXT NOT NULL UNIQUE,
    email TEXT NOT NULL UNIQUE,
    age INTEGER NOT NULL,
    created_at DATETIME DEFAULT CURRENT_TIMESTAMP)
  \<close>
  A row is the object the handlers build from \<^verbatim>\<open>row[0] .. row[4]\<close>. The column
  \<^verbatim>\<open>age\<close> has INTEGER affinity only (the table is not STRICT and has no CHECK), so a
  number that is not integral is kept as it was bound; ages are therefore rationals.
  \<^verbatim>\<open>created_at\<close> is the text SQLite's clock writes, compared bytewise by ORDER BY.
  Rowids are unbounded integers here: the ceiling of 2^63 - 1 rows is not modelled.
\<close>

record User =
  user_id :: int
  username :: string
  email :: string
  age :: rat
  created_at :: string

text \<open>
  The database handle \<^verbatim>\<open>db\<close>: the rows of \<^verbatim>\<open>users\<close> in rowid order and the
  counter SQLite keeps for an AUTOINCREMENT table in \<^verbatim>\<open>sqlite_sequence\<close>.
  \<^verbatim>\<open>saveDatabase\<close> copies the handle to a file; the file system is not modelled.
\<close>

record database =
  users_table :: "User list"
  sqlite_sequence :: int

subsection \<open>The six SQL statements\<close>

text \<open>\<^verbatim>\<open>SELECT * FROM users ORDER BY created_at DESC\<close>; rows with equal keys stay in
  rowid order (SQL leaves their order open).\<close>

definition select_all_desc :: "database \<Rightarrow> User list" where
  "select_all_desc db = rev (sort_key created_at (rev (users_table db)))"

text \<open>\<^verbatim>\<open>SELECT * FROM users WHERE id = ?\<close>; the parameter is \<^verbatim>\<open>parseInt(...)\<close>, and
  NaN (\<open>None\<close>) is bound as NULL, which equals no id.\<close>

definition select_by_id :: "database \<Rightarrow> int option \<Rightarrow> User list" where
  "select_by_id db p = filter (\<lambda>r. Some (user_id r) = p) (users_table db)"

text \<open>\<^verbatim>\<open>SELECT * FROM users WHERE username = ?\<close>\<close>

definition select_by_username :: "database \<Rightarrow> string \<Rightarrow> User list" where
  "select_by_username db u = filter (\<lambda>r. username r = u) (users_table db)"

text \<open>The rowid an AUTOINCREMENT table gives the next row: one more than the largest
  rowid in the table (1 for an empty table), and at least one more than the counter.\<close>

definition new_rowid :: "database \<Rightarrow> int" where
  "new_rowid db =
     (let v = (case users_table db of [] \<Rightarrow> 1
               | r # rs \<Rightarrow> Max (set (map user_id (r # rs))) + 1)
      in if v < sqlite_sequence db + 1 then sqlite_sequence db + 1 else v)"

text \<open>\<^verbatim>\<open>INSERT INTO users (username, email, age) VALUES (?, ?, ?)\<close>. A UNIQUE column that
  already holds the value makes the statement throw and change nothing; otherwise the row
  gets the new rowid and the clock's text \<open>now\<close>, and the counter moves to the rowid.\<close>

definition insert_user :: "database \<Rightarrow> string \<Rightarrow> string \<Rightarrow> rat \<Rightarrow> string \<Rightarrow> string + database" where
  "insert_user db u e a now =
     (if u \<in> set (map username (users_table db))
      then Inl ''UNIQUE constraint failed: users.username''
      else if e \<in> set (map email (users_table db))
      then Inl ''UNIQUE constraint failed: users.email''
      else Inr \<lparr>users_table = users_table db @
                   [\<lparr>user_id = new_rowid db, username = u, email = e, age = a, created_at = now\<rparr>],
               sqlite_sequence = new_rowid db\<rparr>)"

text \<open>\<^verbatim>\<open>DELETE FROM users WHERE id = ?\<close>\<close>

definition delete_by_id :: "database \<Rightarrow> int option \<Rightarrow> database" where
  "delete_by_id db p = db\<lparr>users_table := filter (\<lambda>r. Some (user_id r) \<noteq> p) (users_table db)\<rparr>"

text \<open>\<^verbatim>\<open>DELETE FROM users\<close>; the counter of \<^verbatim>\<open>sqlite_sequence\<close> stays.\<close>

definition delete_all :: "database \<Rightarrow> database" where
  "delete_all db = db\<lparr>users_table := []\<rparr>"

section \<open>JavaScript helpers\<close>

text \<open>
  Strings are the bytes of their UTF-8 text. The white space and line terminators that
  \<^verbatim>\<open>parseInt\<close> and \<^verbatim>\<open>trim\<close> strip, each as its bytes: U+0009 to U+000D, U+0020,
  U+00A0, U+1680, U+2000 to U+200A, U+2028, U+2029, U+202F, U+205F, U+3000 and U+FEFF.
\<close>

definition white_space :: "string list" where
  "white_space =
     [[CHR 0x09], [CHR 0x0A], [CHR 0x0B], [CHR 0x0C], [CHR 0x0D], [CHR 0x20],
      [CHR 0xC2, CHR 0xA0],
      [CHR 0xE1, CHR 0x9A, CHR 0x80],
      [CHR 0xE2, CHR 0x80, CHR 0x80], [CHR 0xE2, CHR 0x80, CHR 0x81],
      [CHR 0xE2, CHR 0x80, CHR 0x82], [CHR 0xE2, CHR 0x80, CHR 0x83],
      [CHR 0xE2, CHR 0x80, CHR 0x84], [CHR 0xE2, CHR 0x80, CHR 0x85],
      [CHR 0xE2, CHR 0x80, CHR 0x86], [CHR 0xE2, CHR 0x80, CHR 0x87],
      [CHR 0xE2, CHR 0x80, CHR 0x88], [CHR 0xE2, CHR 0x80, CHR 0x89],
      [CHR 0xE2, CHR 0x80, CHR 0x8A],
      [CHR 0xE2, CHR 0x80, CHR 0xA8], [CHR 0xE2, CHR 0x80, CHR 0xA9],
      [CHR 0xE2, CHR 0x80, CHR 0xAF],
      [CHR 0xE2, CHR 0x81, CHR 0x9F],
      [CHR 0xE3, CHR 0x80, CHR 0x80],
      [CHR 0xEF, CHR 0xBB, CHR 0xBF]]"

text \<open>Dropping, from the front of a string, every leading occurrence of a word of \<open>ws\<close>.\<close>

function strip_leading :: "string list \<Rightarrow> string \<Rightarrow> string" where
  "strip_leading ws s =
     (case find (\<lambda>w. w \<noteq> [] \<and> take (length w) s = w) ws of
        None \<Rightarrow> s
      | Some w \<Rightarrow> strip_leading ws (drop (length w) s))"
  by pat_completeness auto
termination
proof (relation "measure (\<lambda>(ws, s). length s)")
  show "wf (measure (\<lambda>(ws, s). length s))" by simp
next
  fix ws :: "string list" and s w :: string
  assume "find (\<lambda>w. w \<noteq> [] \<and> take (length w) s = w) ws = Some w"
  then have w: "w \<noteq> []" "take (length w) s = w"
    by (auto simp: find_Some_iff)
  then have "s \<noteq> []" by auto
  with w show "((ws, drop (length w) s), (ws, s)) \<in> measure (\<lambda>(ws, s). length s)"
    by simp
qed

declare strip_leading.simps [simp del]

text \<open>\<^verbatim>\<open>String.prototype.trimStart\<close>, \<^verbatim>\<open>trimEnd\<close> and \<^verbatim>\<open>trim\<close>.\<close>

definition trimStart :: "string \<Rightarrow> string" where
  "trimStart s = strip_leading white_space s"

definition trimEnd :: "string \<Rightarrow> string" where
  "trimEnd s = rev (strip_leading (map rev white_space) (rev s))"

definition trim :: "string \<Rightarrow> string" where
  "trim s = trimEnd (trimStart s)"

text \<open>\<^verbatim>\<open>parseInt(string)\<close> with no radix: leading white space is skipped, a sign is read,
  \<^verbatim>\<open>0x\<close> switches to radix 16, and the longest run of digits is the value; no digit is
  NaN (\<open>None\<close>). The result is the exact integer.\<close>

definition digit_value :: "char \<Rightarrow> nat" where
  "digit_value c =
     (let n = (of_char c :: nat) in
      if 48 \<le> n \<and> n \<le> 57 then n - 48
      else if 97 \<le> n \<and> n \<le> 122 then n - 87
      else if 65 \<le> n \<and> n \<le> 90 then n - 55
      else 36)"

definition parseInt :: "string \<Rightarrow> int option" where
  "parseInt s =
     (let s1 = trimStart s;
          neg = (case s1 of [] \<Rightarrow> False | c # _ \<Rightarrow> c = CHR ''-'');
          s2 = (case s1 of [] \<Rightarrow> [] | c # r \<Rightarrow> if c = CHR ''-'' \<or> c = CHR ''+'' then r else s1);
          hex = (case s2 of a # b # _ \<Rightarrow> a = CHR ''0'' \<and> (b = CHR ''x'' \<or> b = CHR ''X'') | _ \<Rightarrow> False);
          R = (if hex then 16 else 10);
          s3 = (if hex then drop 2 s2 else s2);
          Z = takeWhile (\<lambda>c. digit_value c < R) s3
      in if Z = [] then None
         else Some ((if neg then - 1 else 1) * int (foldl (\<lambda>n c. n * R + digit_value c) 0 Z)))"

text \<open>The decimal text of an integer, as a template literal writes an id into a URL.\<close>

fun decimal_nat :: "nat \<Rightarrow> string" where
  "decimal_nat n =
     (if n < 10 then [char_of (48 + n)]
      else decimal_nat (n div 10) @ [char_of (48 + n mod 10)])"

declare decimal_nat.simps [simp del]

definition toString_int :: "int \<Rightarrow> string" where
  "toString_int i = (if i < 0 then CHR ''-'' # decimal_nat (nat (- i)) else decimal_nat (nat i))"

text \<open>\<^verbatim>\<open>message.includes(part)\<close>\<close>

fun includes_str :: "string \<Rightarrow> string \<Rightarrow> bool" where
  "includes_str [] p = (p = [])"
| "includes_str (c # cs) p = (take (length p) (c # cs) = p \<or> includes_str cs p)"

text \<open>\<^verbatim>\<open>!v\<close> for a field that is a string or absent, and for one that is a number or
  absent: \<open>None\<close> stands for \<^verbatim>\<open>undefined\<close> and \<^verbatim>\<open>null\<close>.\<close>

definition not_string :: "string option \<Rightarrow> bool" where
  "not_string v = (case v of None \<Rightarrow> True | Some s \<Rightarrow> s = [])"

definition not_number :: "rat option \<Rightarrow> bool" where
  "not_number v = (case v of None \<Rightarrow> True | Some n \<Rightarrow> n = 0)"

section \<open>The routes of server.js\<close>

text \<open>
  The JSON body of \<^verbatim>\<open>POST /api/users\<close>, destructured into \<^verbatim>\<open>username\<close>, \<^verbatim>\<open>email\<close>
  and \<^verbatim>\<open>age\<close>. Each field has its JSON type (string, string, number) or is absent.
\<close>

record body =
  body_username :: "string option"
  body_email :: "string option"
  body_age :: "rat option"

text \<open>What a handler sends: the status (200 where the code sets none) and the JSON object.\<close>

record response =
  status :: nat
  success :: bool
  message :: "string option"
  user :: "User option"
  users :: "User list option"

definition failure :: "nat \<Rightarrow> string \<Rightarrow> response" where
  "failure code msg =
     \<lparr>status = code, success = False, message = Some msg, user = None, users = None\<rparr>"

text \<open>\<^verbatim>\<open>app.get('/api/users')\<close>\<close>

definition get_users :: "database \<Rightarrow> response" where
  "get_users db =
     \<lparr>status = 200, success = True, message = None, user = None,
      users = Some (select_all_desc db)\<rparr>"

text \<open>\<^verbatim>\<open>app.get('/api/users/:id')\<close>\<close>

definition get_user_by_id :: "string \<Rightarrow> database \<Rightarrow> response" where
  "get_user_by_id id_param db =
     (case select_by_id db (parseInt id_param) of
        row # _ \<Rightarrow> \<lparr>status = 200, success = True, message = None, user = Some row, users = None\<rparr>
      | [] \<Rightarrow> failure 404 ''User not found'')"

text \<open>\<^verbatim>\<open>app.get('/api/users/username/:username')\<close>\<close>

definition get_user_by_username :: "string \<Rightarrow> database \<Rightarrow> response" where
  "get_user_by_username username_param db =
     (case select_by_username db username_param of
        row # _ \<Rightarrow> \<lparr>status = 200, success = True, message = None, user = Some row, users = None\<rparr>
      | [] \<Rightarrow> failure 404 ''User not found'')"

text \<open>The \<^verbatim>\<open>catch\<close> of \<^verbatim>\<open>app.post('/api/users')\<close>, on the thrown error's message.\<close>

definition post_users_catch :: "string \<Rightarrow> response" where
  "post_users_catch error_message =
     (if includes_str error_message ''UNIQUE constraint failed''
      then failure 409 ''Username or email already exists''
      else failure 500 error_message)"

text \<open>\<^verbatim>\<open>app.post('/api/users')\<close>: the two validation returns, the INSERT, and the SELECT
  by username that reads the created row back. \<open>now\<close> is the clock at the INSERT.\<close>

definition post_users :: "body \<Rightarrow> string \<Rightarrow> database \<Rightarrow> response \<times> database" where
  "post_users b now db =
     (if not_string (body_username b) \<or> not_string (body_email b) \<or> not_number (body_age b)
      then (failure 400 ''All fields are required'', db)
      else
        (case (body_username b, body_email b, body_age b) of
           (Some u, Some e, Some a) \<Rightarrow>
             (if a < 1 \<or> a > 150
              then (failure 400 ''Age must be between 1 and 150'', db)
              else
                (case insert_user db u e a now of
                   Inl error_message \<Rightarrow> (post_users_catch error_message, db)
                 | Inr db' \<Rightarrow>
                     (case select_by_username db' u of
                        [] \<Rightarrow>
                          (post_users_catch ''Cannot read properties of undefined'', db')
                      | row # _ \<Rightarrow>
                          (\<lparr>status = 201, success = True,
                            message = Some ''User registered successfully'',
                            user = Some row, users = None\<rparr>, db'))))
         | _ \<Rightarrow> (failure 400 ''All fields are required'', db)))"

text \<open>\<^verbatim>\<open>app.delete('/api/users/:id')\<close>\<close>

definition delete_user :: "string \<Rightarrow> database \<Rightarrow> response \<times> database" where
  "delete_user id_param db =
     (\<lparr>status = 200, success = True, message = Some ''User deleted successfully'',
       user = None, users = None\<rparr>,
      delete_by_id db (parseInt id_param))"

text \<open>\<^verbatim>\<open>app.delete('/api/users')\<close>\<close>

definition delete_users :: "database \<Rightarrow> response \<times> database" where
  "delete_users db =
     (\<lparr>status = 200, success = True, message = Some ''All users deleted successfully'',
       user = None, users = None\<rparr>,
      delete_all db)"

text \<open>\<^verbatim>\<open>initDatabase\<close>: the database of the file \<^verbatim>\<open>users.db\<close> when there is one, a new
  one otherwise; \<^verbatim>\<open>CREATE TABLE IF NOT EXISTS\<close> leaves an existing table as it is.\<close>

definition initDatabase :: "database option \<Rightarrow> database" where
  "initDatabase file =
     (case file of None \<Rightarrow> \<lparr>users_table = [], sqlite_sequence = 0\<rparr> | Some db \<Rightarrow> db)"

subsection \<open>Requests handled one after another\<close>

datatype request =
    GetUsers
  | GetUserById string
  | GetUserByUsername string
  | PostUsers body string
  | DeleteUser string
  | DeleteUsers

fun handle :: "request \<Rightarrow> database \<Rightarrow> response \<times> database" where
  "handle GetUsers db = (get_users db, db)"
| "handle (GetUserById p) db = (get_user_by_id p db, db)"
| "handle (GetUserByUsername p) db = (get_user_by_username p db, db)"
| "handle (PostUsers b now) db = post_users b now db"
| "handle (DeleteUser p) db = delete_user p db"
| "handle DeleteUsers db = delete_users db"

fun serve :: "request list \<Rightarrow> database \<Rightarrow> response list \<times> database" where
  "serve [] db = ([], db)"
| "serve (q # qs) db =
     (case handle q db of (r, db1) \<Rightarrow>
        (case serve qs db1 of (rs, db2) \<Rightarrow> (r # rs, db2)))"

text \<open>The record a request created: the user of a 201 answer to a POST.\<close>

fun created_user :: "request \<Rightarrow> response \<Rightarrow> User option" where
  "created_user (PostUsers b now) r = (if status r = 201 then user r else None)"
| "created_user _ r = None"

fun created_users :: "request list \<Rightarrow> response list \<Rightarrow> User list" where
  "created_users (q # qs) (r # rs) =
     (case created_user q r of None \<Rightarrow> created_users qs rs
      | Some u \<Rightarrow> u # created_users qs rs)"
| "created_users _ _ = []"

text \<open>What SQLite keeps true of an AUTOINCREMENT table: the counter is at least every
  rowid in the table.\<close>

definition sequence_covers :: "database \<Rightarrow> bool" where
  "sequence_covers db = list_all (\<lambda>r. user_id r \<le> sqlite_sequence db) (users_table db)"

text \<open>Validation as section 4.2 of the specification words it: a field is missing
  (absent, or an empty string), or the age is outside 1..150.\<close>

definition spec_missing_field :: "body \<Rightarrow> bool" where
  "spec_missing_field b =
     (body_username b = None \<or> body_username b = Some [] \<or>
      body_email b = None \<or> body_email b = Some [] \<or> body_age b = None)"

definition spec_age_out_of_range :: "body \<Rightarrow> bool" where
  "spec_age_out_of_range b = (case body_age b of None \<Rightarrow> False | Some a \<Rightarrow> a < 1 \<or> 150 < a)"

section \<open>The form of public/app.js\<close>

text \<open>
  The page as the script sees it: the three inputs, the class lists of the form, the
  message box and the user panel, the text of the message box and of the four spans, and
  the submit button. A number assigned to \<^verbatim>\<open>textContent\<close> shows as that number's text.
\<close>

datatype dom_text = Text string | NumberText rat

record dom =
  username_value :: string
  email_value :: string
  age_value :: string
  form_classes :: "string list"
  message_classes :: "string list"
  message_text :: string
  userInfo_classes :: "string list"
  userId :: dom_text
  displayUsername :: dom_text
  displayEmail :: dom_text
  displayAge :: dom_text
  submitBtn_disabled :: bool
  submitBtn_text :: string

definition classList_add :: "string \<Rightarrow> string list \<Rightarrow> string list" where
  "classList_add c l = (if c \<in> set l then l else l @ [c])"

definition classList_remove :: "string \<Rightarrow> string list \<Rightarrow> string list" where
  "classList_remove c l = removeAll c l"

text \<open>\<^verbatim>\<open>formData\<close> as \<^verbatim>\<open>JSON.stringify\<close> sends it: NaN becomes \<^verbatim>\<open>null\<close>.\<close>

definition formData :: "dom \<Rightarrow> body" where
  "formData d =
     \<lparr>body_username = Some (trim (username_value d)),
      body_email = Some (trim (email_value d)),
      body_age = map_option of_int (parseInt (age_value d))\<rparr>"

text \<open>\<^verbatim>\<open>showMessage(text, type)\<close>; an undefined text empties the box. The timer for the
  type \<^verbatim>\<open>success\<close> is not modelled.\<close>

definition showMessage :: "string option \<Rightarrow> string \<Rightarrow> dom \<Rightarrow> dom" where
  "showMessage text type d =
     d\<lparr>message_text := (case text of None \<Rightarrow> [] | Some t \<Rightarrow> t),
       message_classes := classList_remove ''hidden'' [''message'', type]\<rparr>"

text \<open>The submit handler, from the click to the end of \<^verbatim>\<open>finally\<close>. \<open>fetch\<close> is the
  network: the parsed JSON answer to the POST, or \<open>None\<close> when \<^verbatim>\<open>fetch\<close> or
  \<^verbatim>\<open>response.json()\<close> throws. A successful answer without a user throws at
  \<^verbatim>\<open>data.user.id\<close>, after the form and the message box were hidden.\<close>

definition submit :: "(body \<Rightarrow> response option) \<Rightarrow> dom \<Rightarrow> dom" where
  "submit fetch d =
     (let d1 = d\<lparr>submitBtn_disabled := True, submitBtn_text := ''Registering...''\<rparr>;
          failed = Some ''Failed to register user. Please ensure the server is running.'';
          d2 = (case fetch (formData d) of
                  None \<Rightarrow> showMessage failed ''error'' d1
                | Some data \<Rightarrow>
                    if success data then
                      (let d3 = d1\<lparr>form_classes := classList_add ''hidden'' (form_classes d1),
                                   message_classes := classList_add ''hidden'' (message_classes d1)\<rparr>
                       in case user data of
                            None \<Rightarrow> showMessage failed ''error'' d3
                          | Some u \<Rightarrow>
                              d3\<lparr>userId := NumberText (of_int (user_id u)),
                                 displayUsername := Text (username u),
                                 displayEmail := Text (email u),
                                 displayAge := NumberText (age u),
                                 userInfo_classes := classList_remove ''hidden'' (userInfo_classes d3)\<rparr>)
                    else showMessage (message data) ''error'' d1)
      in d2\<lparr>submitBtn_disabled := False, submitBtn_text := ''Register User''\<rparr>)"

text \<open>The network when the server holds \<open>db\<close> and its clock reads \<open>now\<close>.\<close>

definition fetch_api :: "database \<Rightarrow> string \<Rightarrow> body \<Rightarrow> response option" where
  "fetch_api db now b = Some (fst (post_users b now db))"

text \<open>Every text the page shows.\<close>

definition shown_texts :: "dom \<Rightarrow> dom_text list" where
  "shown_texts d =
     [Text (message_text d), userId d, displayUsername d, displayEmail d, displayAge d,
      Text (submitBtn_text d)]"

subsection \<open>Sample states\<close>

text \<open>A table after three registrations and the deletion of the second user.\<close>

definition sample_db :: database where
  "sample_db =
     \<lparr>users_table =
        [\<lparr>user_id = 1, username = ''alice'', email = ''alice@example.com'', age = 30,
          created_at = ''2024-01-01 10:00:00''\<rparr>,
         \<lparr>user_id = 3, username = ''carol'', email = ''carol@example.com'', age = 41,
          created_at = ''2024-03-05 08:30:00''\<rparr>],
      sqlite_sequence = 3\<rparr>"

definition sample_body :: "rat \<Rightarrow> body" where
  "sample_body a =
     \<lparr>body_username = Some ''bob'', body_email = Some ''bob@example.com'', body_age = Some a\<rparr>"

definition sample_requests :: "request list" where
  "sample_requests =
     [PostUsers (sample_body 25) ''2024-06-01 12:00:00'', DeleteUser ''4'',
      PostUsers (sample_body 26) ''2024-06-01 12:00:05'', GetUsers]"

definition sample_page :: dom where
  "sample_page =
     \<lparr>username_value = ''alice'', email_value = ''alice@example.com'', age_value = ''25'',
      form_classes = [], message_classes = [''message'', ''hidden''], message_text = [],
      userInfo_classes = [''user-info'', ''hidden''],
      userId = Text [], displayUsername = Text [], displayEmail = Text [], displayAge = Text [],
      submitBtn_disabled = False, submitBtn_text = ''Register User''\<rparr>"

section \<open>Facts about the helpers\<close>

subsection \<open>Reading back the decimal text of an id\<close>

lemma digit_value_char_of: "d < 10 \<Longrightarrow> digit_value (char_of (48 + d)) = d"
  by (simp add: digit_value_def Let_def)

lemma decimal_nat_digits: "c \<in> set (decimal_nat n) \<Longrightarrow> digit_value c < 10"
proof (induction n arbitrary: c rule: decimal_nat.induct)
  case (1 n)
  show ?case
  proof (cases "n < 10")
    case True
    with "1.prems" show ?thesis
      by (subst (asm) decimal_nat.simps) (simp add: digit_value_char_of)
  next
    case False
    have m: "n mod 10 < 10" by simp
    from False "1.prems" have "c \<in> set (decimal_nat (n div 10)) \<or> c = char_of (48 + n mod 10)"
      by (subst (asm) decimal_nat.simps) auto
    then show ?thesis
      using "1.IH" [OF False] digit_value_char_of [OF m] by auto
  qed
qed

lemma decimal_nat_not_Nil: "decimal_nat n \<noteq> []"
  by (subst decimal_nat.simps) simp

lemma decimal_nat_value: "foldl (\<lambda>a c. a * 10 + digit_value c) 0 (decimal_nat n) = n"
proof (induction n rule: decimal_nat.induct)
  case (1 n)
  show ?case
  proof (cases "n < 10")
    case True
    then show ?thesis by (subst decimal_nat.simps) (simp add: digit_value_char_of)
  next
    case False
    have m: "n mod 10 < 10" by simp
    show ?thesis
      using False "1.IH" [OF False] digit_value_char_of [OF m]
      by (subst decimal_nat.simps) simp
  qed
qed

lemma digit_not_special:
  "digit_value c < 10 \<Longrightarrow>
     c \<noteq> CHR ''-'' \<and> c \<noteq> CHR ''+'' \<and> c \<noteq> CHR ''x'' \<and> c \<noteq> CHR ''X''"
  by (auto simp: digit_value_def Let_def)

text \<open>A string whose first byte starts no word of \<open>ws\<close> is left as it is.\<close>

lemma strip_leading_other_head:
  assumes "\<forall>w \<in> set ws. w \<noteq> [] \<longrightarrow> hd w \<noteq> c"
  shows "strip_leading ws (c # r) = c # r"
proof -
  have "\<not> (w \<noteq> [] \<and> take (length w) (c # r) = w)" if "w \<in> set ws" for w
  proof (cases w)
    case Nil
    then show ?thesis by simp
  next
    case (Cons a v)
    with assms that have "a \<noteq> c" by auto
    with Cons show ?thesis by auto
  qed
  then have "find (\<lambda>w. w \<noteq> [] \<and> take (length w) (c # r) = w) ws = None"
    by (simp add: find_None_iff)
  then show ?thesis
    by (subst strip_leading.simps) simp
qed

lemma white_space_heads:
  "w \<in> set white_space \<Longrightarrow>
     hd w \<in> set [CHR 0x09, CHR 0x0A, CHR 0x0B, CHR 0x0C, CHR 0x0D, CHR 0x20, CHR 0xC2, CHR 0xE1,
       CHR 0xE2, CHR 0xE3, CHR 0xEF]"
  by (auto simp: white_space_def)

lemma trimStart_digit: "digit_value c < 10 \<Longrightarrow> trimStart (c # r) = c # r"
  unfolding trimStart_def
  by (rule strip_leading_other_head) (auto dest!: white_space_heads simp: digit_value_def Let_def)

lemma trimStart_minus: "trimStart (CHR ''-'' # r) = CHR ''-'' # r"
  unfolding trimStart_def
  by (rule strip_leading_other_head) (auto dest!: white_space_heads)

lemma digits_not_hex:
  assumes "\<forall>c \<in> set s. digit_value c < 10"
  shows "\<not> (case s of a # b # _ \<Rightarrow> a = CHR ''0'' \<and> (b = CHR ''x'' \<or> b = CHR ''X'') | _ \<Rightarrow> False)"
proof (cases s)
  case Nil
  then show ?thesis by simp
next
  case outer: (Cons a r)
  show ?thesis
  proof (cases r)
    case Nil
    with outer show ?thesis by simp
  next
    case (Cons b t)
    with outer assms have "digit_value b < 10" by simp
    from digit_not_special [OF this] outer Cons show ?thesis by simp
  qed
qed

lemma parseInt_digits:
  assumes "s \<noteq> []" and "\<forall>c \<in> set s. digit_value c < 10"
  shows "parseInt s = Some (int (foldl (\<lambda>a c. a * 10 + digit_value c) 0 s))"
proof -
  from assms obtain c r where s: "s = c # r" by (cases s) auto
  with assms have c: "digit_value c < 10" by simp
  note sp = digit_not_special [OF c]
  note hex = digits_not_hex [OF assms(2)]
  have tw: "takeWhile (\<lambda>c. digit_value c < 10) s = s"
    using assms by simp
  have s1: "trimStart s = s" using s c trimStart_digit by simp
  have neg: "(case s of [] \<Rightarrow> False | c # _ \<Rightarrow> c = CHR ''-'') = False"
    using s sp by simp
  have s2: "(case s of [] \<Rightarrow> [] | c # r \<Rightarrow> if c = CHR ''-'' \<or> c = CHR ''+'' then r else s) = s"
    using s sp by simp
  show ?thesis
    unfolding parseInt_def s1 Let_def neg s2
    using hex assms(1) by (simp add: tw)
qed

lemma parseInt_negative_digits:
  assumes "s \<noteq> []" and "\<forall>c \<in> set s. digit_value c < 10"
  shows "parseInt (CHR ''-'' # s) = Some (- int (foldl (\<lambda>a c. a * 10 + digit_value c) 0 s))"
proof -
  note hex = digits_not_hex [OF assms(2)]
  have tw: "takeWhile (\<lambda>c. digit_value c < 10) s = s"
    using assms by simp
  have s1: "trimStart (CHR ''-'' # s) = CHR ''-'' # s" by (rule trimStart_minus)
  show ?thesis
    unfolding parseInt_def s1 Let_def
    using hex assms(1) by (simp add: tw)
qed

lemma parseInt_toString_int: "parseInt (toString_int i) = Some i"
proof (cases "i < 0")
  case True
  then show ?thesis
    using parseInt_negative_digits [of "decimal_nat (nat (- i))"]
    by (simp add: toString_int_def decimal_nat_not_Nil decimal_nat_digits decimal_nat_value)
next
  case False
  then show ?thesis
    using parseInt_digits [of "decimal_nat (nat i)"]
    by (simp add: toString_int_def decimal_nat_not_Nil decimal_nat_digits decimal_nat_value)
qed

lemma toString_int_4: "toString_int 4 = ''4''"
  by code_simp

subsection \<open>The store\<close>

lemma new_rowid_gt_rows: "r \<in> set (users_table db) \<Longrightarrow> user_id r < new_rowid db"
proof -
  assume r: "r \<in> set (users_table db)"
  then obtain x xs where eq: "users_table db = x # xs" by (cases "users_table db") auto
  have "user_id r \<le> Max (set (map user_id (x # xs)))"
    using r eq by (intro Max_ge) auto
  then show ?thesis by (simp add: new_rowid_def eq Let_def)
qed

lemma new_rowid_gt_seq: "sqlite_sequence db < new_rowid db"
  by (simp add: new_rowid_def Let_def)

lemma new_rowid_sample: "new_rowid sample_db = 4"
  by (simp add: new_rowid_def sample_db_def)

lemma filter_username_absent:
  "u \<notin> username ` set rows \<Longrightarrow> filter (\<lambda>r. username r = u) rows = []"
  by (induction rows) auto

lemma filter_id_absent:
  "\<forall>r \<in> set rows. user_id r \<noteq> i \<Longrightarrow> filter (\<lambda>r. Some (user_id r) = Some i) rows = []"
  by (induction rows) auto

lemma select_by_id_created:
  "select_by_id
     \<lparr>users_table = users_table db @
        [\<lparr>user_id = new_rowid db, username = u, email = e, age = a, created_at = now\<rparr>],
      sqlite_sequence = s\<rparr> (Some (new_rowid db)) =
   [\<lparr>user_id = new_rowid db, username = u, email = e, age = a, created_at = now\<rparr>]"
proof -
  have "\<forall>r \<in> set (users_table db). user_id r \<noteq> new_rowid db"
    using new_rowid_gt_rows [of _ db] by fastforce
  from filter_id_absent [OF this] show ?thesis
    by (simp add: select_by_id_def)
qed

lemma get_user_by_username_absent:
  "u \<notin> username ` set (users_table db) \<Longrightarrow>
     get_user_by_username u db = failure 404 ''User not found''"
  by (simp add: get_user_by_username_def select_by_username_def filter_username_absent)

section \<open>Creating a user\<close>

lemma catch_unique_username:
  "post_users_catch ''UNIQUE constraint failed: users.username'' =
     failure 409 ''Username or email already exists''"
  by (simp add: post_users_catch_def)

lemma catch_unique_email:
  "post_users_catch ''UNIQUE constraint failed: users.email'' =
     failure 409 ''Username or email already exists''"
  by (simp add: post_users_catch_def)

text \<open>A request that passes both checks and meets no taken name: the answer and the
  table after it, written out.\<close>

lemma post_users_created:
  assumes "u \<noteq> []" "e \<noteq> []" "1 \<le> a" "a \<le> 150"
    and "u \<notin> username ` set (users_table db)" "e \<notin> email ` set (users_table db)"
  shows "post_users \<lparr>body_username = Some u, body_email = Some e, body_age = Some a\<rparr> now db =
    (\<lparr>status = 201, success = True, message = Some ''User registered successfully'',
      user = Some \<lparr>user_id = new_rowid db, username = u, email = e, age = a, created_at = now\<rparr>,
      users = None\<rparr>,
     \<lparr>users_table = users_table db @
        [\<lparr>user_id = new_rowid db, username = u, email = e, age = a, created_at = now\<rparr>],
      sqlite_sequence = new_rowid db\<rparr>)"
proof -
  have nz: "a \<noteq> 0" using assms(3) by auto
  have ins: "insert_user db u e a now = Inr \<lparr>users_table = users_table db @
        [\<lparr>user_id = new_rowid db, username = u, email = e, age = a, created_at = now\<rparr>],
      sqlite_sequence = new_rowid db\<rparr>"
    using assms(5,6) by (simp add: insert_user_def)
  show ?thesis
    using assms(1-4) nz
    by (simp add: post_users_def not_string_def not_number_def ins select_by_username_def
        filter_username_absent [OF assms(5)])
qed

lemma post_users_age_rejected:
  assumes "u \<noteq> []" and "e \<noteq> []" and "a \<noteq> 0" and "a < 1 \<or> 150 < a"
  shows "post_users \<lparr>body_username = Some u, body_email = Some e, body_age = Some a\<rparr> now db =
      (failure 400 ''Age must be between 1 and 150'', db)"
  using assms by (simp add: post_users_def not_string_def not_number_def)

lemma post_users_age_zero:
  "post_users \<lparr>body_username = x, body_email = y, body_age = Some 0\<rparr> now db =
      (failure 400 ''All fields are required'', db)"
  by (simp add: post_users_def not_string_def not_number_def)

text \<open>
  \<^bold>\<open>C1\<close> (round trip of create and get by id). Take a username and an email that are
  not empty and that no row of the table holds, and an age from 1 to 150. Then
  \<^verbatim>\<open>POST /api/users\<close> answers 201 with a user that carries the submitted username,
  email and age, the rowid the table assigns (which no row had) and the clock's text as
  \<^verbatim>\<open>created_at\<close>; and \<^verbatim>\<open>GET /api/users/:id\<close> with the decimal text of that id, on the
  table the POST left, answers 200 with the same user.
\<close>

theorem create_then_get_by_id:
  assumes "u \<noteq> []" and "e \<noteq> []" and "1 \<le> a" and "a \<le> 150"
    and "u \<notin> username ` set (users_table db)" and "e \<notin> email ` set (users_table db)"
  shows "let row = \<lparr>user_id = new_rowid db, username = u, email = e, age = a, created_at = now\<rparr>;
             db' = snd (post_users \<lparr>body_username = Some u, body_email = Some e, body_age = Some a\<rparr> now db)
         in fst (post_users \<lparr>body_username = Some u, body_email = Some e, body_age = Some a\<rparr> now db) =
              \<lparr>status = 201, success = True, message = Some ''User registered successfully'',
               user = Some row, users = None\<rparr> \<and>
            user_id row \<notin> user_id ` set (users_table db) \<and>
            get_user_by_id (toString_int (user_id row)) db' =
              \<lparr>status = 200, success = True, message = None, user = Some row, users = None\<rparr>"
proof -
  have fresh: "new_rowid db \<notin> user_id ` set (users_table db)"
    using new_rowid_gt_rows [of _ db] by fastforce
  show ?thesis
    using fresh
    by (simp add: post_users_created [OF assms] get_user_by_id_def parseInt_toString_int
        select_by_id_created)
qed

theorem create_then_get_by_id_witness:
  "let row = \<lparr>user_id = 4, username = ''bob'', email = ''bob@example.com'', age = 25,
                created_at = ''2024-06-01 12:00:00''\<rparr>;
       db' = snd (post_users (sample_body 25) ''2024-06-01 12:00:00'' sample_db)
   in fst (post_users (sample_body 25) ''2024-06-01 12:00:00'' sample_db) =
        \<lparr>status = 201, success = True, message = Some ''User registered successfully'',
         user = Some row, users = None\<rparr> \<and>
      get_user_by_id ''4'' db' =
        \<lparr>status = 200, success = True, message = None, user = Some row, users = None\<rparr>"
  using create_then_get_by_id [of "''bob''" "''bob@example.com''" 25 sample_db "''2024-06-01 12:00:00''"]
  by (simp add: new_rowid_sample sample_body_def toString_int_4 Let_def) (simp add: sample_db_def)

text \<open>
  \<^bold>\<open>C2\<close> (a uniqueness conflict changes nothing). When some row of the table has the
  username \<open>u\<close>, a \<^verbatim>\<open>POST /api/users\<close> with that username, any email that is not empty
  and any age from 1 to 150 answers 409 with the message
  \<^verbatim>\<open>Username or email already exists\<close>, and the database after the call is the database
  before it, so the row keeps the email it had.
\<close>

theorem duplicate_username_conflict:
  assumes "u \<noteq> []" and "e \<noteq> []" and "1 \<le> a" and "a \<le> 150"
    and "r \<in> set (users_table db)" and "username r = u"
  shows "post_users \<lparr>body_username = Some u, body_email = Some e, body_age = Some a\<rparr> now db =
      (\<lparr>status = 409, success = False, message = Some ''Username or email already exists'',
        user = None, users = None\<rparr>, db)"
proof -
  have nz: "a \<noteq> 0" using assms(3) by auto
  have "u \<in> set (map username (users_table db))" using assms(5,6) by force
  then have "insert_user db u e a now = Inl ''UNIQUE constraint failed: users.username''"
    by (simp add: insert_user_def)
  then show ?thesis
    using assms(1-4) nz
    by (simp add: post_users_def not_string_def not_number_def catch_unique_username failure_def)
qed

theorem duplicate_username_conflict_witness:
  "post_users \<lparr>body_username = Some ''alice'', body_email = Some ''other@example.com'',
       body_age = Some 30\<rparr> ''2024-06-01 12:00:00'' sample_db =
     (\<lparr>status = 409, success = False, message = Some ''Username or email already exists'',
       user = None, users = None\<rparr>, sample_db) \<and>
   map_option email (user (get_user_by_username ''alice'' sample_db)) = Some ''alice@example.com''"
  using duplicate_username_conflict [of "''alice''" "''other@example.com''" 30
      "\<lparr>user_id = 1, username = ''alice'', email = ''alice@example.com'', age = 30,
          created_at = ''2024-01-01 10:00:00''\<rparr>" sample_db "''2024-06-01 12:00:00''"]
  by (simp add: sample_db_def get_user_by_username_def select_by_username_def)

text \<open>
  \<^bold>\<open>C3\<close> (validation comes before the store). When a field of the request is missing
  or its age is outside 1..150, \<^verbatim>\<open>POST /api/users\<close> answers 400 without success, the
  database is left as it was, and the answer is the same whatever the database holds: a
  request that is invalid and also repeats a taken username or email gets 400, not 409.
\<close>

theorem validation_precedes_store:
  assumes "spec_missing_field b \<or> spec_age_out_of_range b"
  shows "status (fst (post_users b now db)) = 400 \<and> \<not> success (fst (post_users b now db)) \<and>
         snd (post_users b now db) = db \<and>
         fst (post_users b now db2) = fst (post_users b now db)"
  using assms
  by (auto simp: post_users_def spec_missing_field_def spec_age_out_of_range_def
      not_string_def not_number_def failure_def split: option.splits)

theorem validation_precedes_store_witness:
  "spec_age_out_of_range
     \<lparr>body_username = Some ''alice'', body_email = Some ''alice@example.com'', body_age = Some 200\<rparr> \<and>
   ''alice'' \<in> username ` set (users_table sample_db) \<and>
   status (fst (post_users
     \<lparr>body_username = Some ''alice'', body_email = Some ''alice@example.com'', body_age = Some 200\<rparr>
     ''2024-06-01 12:00:00'' sample_db)) = 400 \<and>
   snd (post_users
     \<lparr>body_username = Some ''alice'', body_email = Some ''alice@example.com'', body_age = Some 200\<rparr>
     ''2024-06-01 12:00:00'' sample_db) = sample_db"
  using validation_precedes_store [of
      "\<lparr>body_username = Some ''alice'', body_email = Some ''alice@example.com'', body_age = Some 200\<rparr>"
      "''2024-06-01 12:00:00''" sample_db sample_db]
  by (simp add: spec_age_out_of_range_def) (simp add: sample_db_def)

text \<open>
  \<^bold>\<open>C4\<close> (the age boundaries). Take a username and an email that are not empty and
  not taken. For the ages 1 and 150, \<^verbatim>\<open>POST /api/users\<close> answers 201 with the
  created user (the submitted fields, the new rowid, the clock's text), the table is the
  old table with that user appended, and \<^verbatim>\<open>GET\<close> by the username then answers 200
  with that user. For the ages 0 and 151 it answers 400 without success, the database is
  the one before the request, and \<^verbatim>\<open>GET\<close> by the username then answers 404: no record
  was left.
\<close>

theorem age_boundaries:
  assumes "u \<noteq> []" and "e \<noteq> []"
    and "u \<notin> username ` set (users_table db)" and "e \<notin> email ` set (users_table db)"
  shows "let req = (\<lambda>a. \<lparr>body_username = Some u, body_email = Some e, body_age = Some a\<rparr>);
             row = (\<lambda>a. \<lparr>user_id = new_rowid db, username = u, email = e, age = a, created_at = now\<rparr>)
         in fst (post_users (req 1) now db) =
              \<lparr>status = 201, success = True, message = Some ''User registered successfully'',
               user = Some (row 1), users = None\<rparr> \<and>
            users_table (snd (post_users (req 1) now db)) = users_table db @ [row 1] \<and>
            get_user_by_username u (snd (post_users (req 1) now db)) =
              \<lparr>status = 200, success = True, message = None, user = Some (row 1), users = None\<rparr> \<and>
            fst (post_users (req 150) now db) =
              \<lparr>status = 201, success = True, message = Some ''User registered successfully'',
               user = Some (row 150), users = None\<rparr> \<and>
            users_table (snd (post_users (req 150) now db)) = users_table db @ [row 150] \<and>
            get_user_by_username u (snd (post_users (req 150) now db)) =
              \<lparr>status = 200, success = True, message = None, user = Some (row 150), users = None\<rparr> \<and>
            status (fst (post_users (req 0) now db)) = 400 \<and>
            \<not> success (fst (post_users (req 0) now db)) \<and>
            snd (post_users (req 0) now db) = db \<and>
            status (get_user_by_username u (snd (post_users (req 0) now db))) = 404 \<and>
            status (fst (post_users (req 151) now db)) = 400 \<and>
            \<not> success (fst (post_users (req 151) now db)) \<and>
            snd (post_users (req 151) now db) = db \<and>
            status (get_user_by_username u (snd (post_users (req 151) now db))) = 404"
proof -
  have lo: "post_users \<lparr>body_username = Some u, body_email = Some e, body_age = Some 1\<rparr> now db =
    (\<lparr>status = 201, success = True, message = Some ''User registered successfully'',
      user = Some \<lparr>user_id = new_rowid db, username = u, email = e, age = 1, created_at = now\<rparr>,
      users = None\<rparr>,
     \<lparr>users_table = users_table db @
        [\<lparr>user_id = new_rowid db, username = u, email = e, age = 1, created_at = now\<rparr>],
      sqlite_sequence = new_rowid db\<rparr>)"
    using post_users_created [OF assms(1,2) _ _ assms(3,4), of 1 now] by simp
  have hi: "post_users \<lparr>body_username = Some u, body_email = Some e, body_age = Some 150\<rparr> now db =
    (\<lparr>status = 201, success = True, message = Some ''User registered successfully'',
      user = Some \<lparr>user_id = new_rowid db, username = u, email = e, age = 150, created_at = now\<rparr>,
      users = None\<rparr>,
     \<lparr>users_table = users_table db @
        [\<lparr>user_id = new_rowid db, username = u, email = e, age = 150, created_at = now\<rparr>],
      sqlite_sequence = new_rowid db\<rparr>)"
    using post_users_created [OF assms(1,2) _ _ assms(3,4), of 150 now] by simp
  have over: "post_users \<lparr>body_username = Some u, body_email = Some e, body_age = Some 151\<rparr> now db =
      (failure 400 ''Age must be between 1 and 150'', db)"
    using post_users_age_rejected [OF assms(1,2), of 151 now db] by simp
  note absent = get_user_by_username_absent [OF assms(3)]
  note none = filter_username_absent [OF assms(3)]
  show ?thesis
    by (simp add: Let_def lo hi over post_users_age_zero absent failure_def
        get_user_by_username_def select_by_username_def none)
qed

theorem age_boundaries_witness:
  "fst (post_users (sample_body 1) ''2024-06-01 12:00:00'' sample_db) =
     \<lparr>status = 201, success = True, message = Some ''User registered successfully'',
      user = Some \<lparr>user_id = 4, username = ''bob'', email = ''bob@example.com'', age = 1,
               created_at = ''2024-06-01 12:00:00''\<rparr>, users = None\<rparr> \<and>
   get_user_by_username ''bob'' (snd (post_users (sample_body 150) ''2024-06-01 12:00:00'' sample_db)) =
     \<lparr>status = 200, success = True, message = None,
      user = Some \<lparr>user_id = 4, username = ''bob'', email = ''bob@example.com'', age = 150,
               created_at = ''2024-06-01 12:00:00''\<rparr>, users = None\<rparr> \<and>
   status (fst (post_users (sample_body 0) ''2024-06-01 12:00:00'' sample_db)) = 400 \<and>
   snd (post_users (sample_body 0) ''2024-06-01 12:00:00'' sample_db) = sample_db \<and>
   status (get_user_by_username ''bob''
     (snd (post_users (sample_body 0) ''2024-06-01 12:00:00'' sample_db))) = 404 \<and>
   status (fst (post_users (sample_body 151) ''2024-06-01 12:00:00'' sample_db)) = 400 \<and>
   status (get_user_by_username ''bob''
     (snd (post_users (sample_body 151) ''2024-06-01 12:00:00'' sample_db))) = 404"
proof -
  have h: "''bob'' \<noteq> []" "''bob@example.com'' \<noteq> []"
    "''bob'' \<notin> username ` set (users_table sample_db)"
    "''bob@example.com'' \<notin> email ` set (users_table sample_db)"
    by (simp_all add: sample_db_def)
  from age_boundaries [OF h, of "''2024-06-01 12:00:00''"]
  show ?thesis
    by (auto simp add: sample_body_def Let_def new_rowid_sample)
qed

text \<open>
  \<^bold>\<open>C5\<close> (which failure is reported). The request below has all three fields, and
  its age 0 is outside 1..150, yet the answer is the missing-field failure
  \<^verbatim>\<open>All fields are required\<close>: the test \<^verbatim>\<open>!age\<close> is true of the number 0, so the
  request never reaches the range check that would have answered
  \<^verbatim>\<open>Age must be between 1 and 150\<close>.
\<close>

theorem age_zero_reported_missing:
  "spec_age_out_of_range
     \<lparr>body_username = Some ''alice'', body_email = Some ''alice@example.com'', body_age = Some 0\<rparr> \<and>
   \<not> spec_missing_field
     \<lparr>body_username = Some ''alice'', body_email = Some ''alice@example.com'', body_age = Some 0\<rparr> \<and>
   fst (post_users
     \<lparr>body_username = Some ''alice'', body_email = Some ''alice@example.com'', body_age = Some 0\<rparr>
     now db) =
     \<lparr>status = 400, success = False, message = Some ''All fields are required'',
      user = None, users = None\<rparr>"
  by (simp add: post_users_age_zero spec_age_out_of_range_def spec_missing_field_def failure_def)

text \<open>For every other age outside the range the answer is the range failure, and the
  missing-field failure is given exactly to the requests with a field that \<^verbatim>\<open>!\<close> rejects.\<close>

lemma age_out_of_range_message:
  assumes "\<not> spec_missing_field b" and "spec_age_out_of_range b" and "body_age b \<noteq> Some 0"
  shows "fst (post_users b now db) = failure 400 ''Age must be between 1 and 150''"
  using assms
  by (cases b)
    (auto simp: post_users_def spec_missing_field_def spec_age_out_of_range_def
      not_string_def not_number_def split: option.splits)

lemma missing_field_message_iff:
  "fst (post_users b now db) = failure 400 ''All fields are required'' \<longleftrightarrow>
     spec_missing_field b \<or> body_age b = Some 0"
  by (cases b)
    (auto simp: post_users_def spec_missing_field_def not_string_def not_number_def
      failure_def post_users_catch_def split: option.splits sum.splits list.splits)

text \<open>
  \<^bold>\<open>C10\<close> (the age is never checked to be an integer). With a username and an email
  that are not empty and not taken, and any rational age \<open>v\<close> from 1 to 150,
  \<^verbatim>\<open>POST /api/users\<close> answers 201, the returned user has the age \<open>v\<close>, and the row
  that \<^verbatim>\<open>SELECT\<close> and \<^verbatim>\<open>GET\<close> by username find afterwards has the age \<open>v\<close>.
\<close>

theorem age_not_checked_integral:
  assumes "u \<noteq> []" and "e \<noteq> []" and "1 \<le> v" and "v \<le> 150"
    and "u \<notin> username ` set (users_table db)" and "e \<notin> email ` set (users_table db)"
  shows "let reply = fst (post_users \<lparr>body_username = Some u, body_email = Some e, body_age = Some v\<rparr> now db);
             db' = snd (post_users \<lparr>body_username = Some u, body_email = Some e, body_age = Some v\<rparr> now db)
         in status reply = 201 \<and> success reply \<and> map_option age (user reply) = Some v \<and>
            map age (select_by_username db' u) = [v] \<and>
            map_option age (user (get_user_by_username u db')) = Some v"
  by (simp add: post_users_created [OF assms] get_user_by_username_def select_by_username_def
      filter_username_absent [OF assms(5)])

theorem age_not_checked_integral_witness:
  "let reply = fst (post_users (sample_body (51 / 2)) ''2024-06-01 12:00:00'' sample_db);
       db' = snd (post_users (sample_body (51 / 2)) ''2024-06-01 12:00:00'' sample_db)
   in status reply = 201 \<and> map_option age (user reply) = Some (51 / 2) \<and>
      map_option age (user (get_user_by_username ''bob'' db')) = Some (51 / 2)"
  using age_not_checked_integral [of "''bob''" "''bob@example.com''" "51 / 2" sample_db
      "''2024-06-01 12:00:00''"]
  by (simp add: sample_body_def Let_def) (simp add: sample_db_def)

section \<open>Listing and deleting\<close>

text \<open>
  \<^bold>\<open>C6\<close> (the order of the list). For every database, \<^verbatim>\<open>GET /api/users\<close> answers 200
  with success; its users are the rows of the table, each as often as the table has it,
  and every user comes before the users whose \<^verbatim>\<open>created_at\<close> is smaller or equal; for a
  table without rows the list is empty.
\<close>

theorem list_ordering:
  "status (get_users db) = 200 \<and> success (get_users db) \<and>
   (\<exists>us. users (get_users db) = Some us \<and> mset us = mset (users_table db) \<and>
      sorted_wrt (\<lambda>x y. created_at y \<le> created_at x) us) \<and>
   users (get_users (db\<lparr>users_table := []\<rparr>)) = Some []"
proof -
  have "sorted (map created_at (sort_key created_at (rev (users_table db))))"
    by simp
  then have "sorted_wrt (\<lambda>x y. created_at x \<le> created_at y)
      (sort_key created_at (rev (users_table db)))"
    by (simp add: sorted_map)
  then have "sorted_wrt (\<lambda>x y. created_at y \<le> created_at x) (select_all_desc db)"
    by (simp add: select_all_desc_def sorted_wrt_rev)
  then show ?thesis
    by (simp add: get_users_def select_all_desc_def)
qed

theorem list_ordering_witness:
  "users (get_users sample_db) =
     Some [\<lparr>user_id = 3, username = ''carol'', email = ''carol@example.com'', age = 41,
            created_at = ''2024-03-05 08:30:00''\<rparr>,
           \<lparr>user_id = 1, username = ''alice'', email = ''alice@example.com'', age = 30,
            created_at = ''2024-01-01 10:00:00''\<rparr>] \<and>
   status (get_users sample_db) = 200 \<and> success (get_users sample_db)"
  using list_ordering [of sample_db]
  by (simp add: get_users_def select_all_desc_def sample_db_def less_char_def less_eq_char_def)

text \<open>
  \<^bold>\<open>C7\<close> (delete is idempotent). For every id text and every database,
  \<^verbatim>\<open>DELETE /api/users/:id\<close> answers 200 with success, whether or not a row has that id;
  the same request once more answers the same and leaves the database as the first
  request left it.
\<close>

theorem delete_idempotent:
  "fst (delete_user p db) =
     \<lparr>status = 200, success = True, message = Some ''User deleted successfully'',
      user = None, users = None\<rparr> \<and>
   delete_user p (snd (delete_user p db)) =
     (\<lparr>status = 200, success = True, message = Some ''User deleted successfully'',
       user = None, users = None\<rparr>, snd (delete_user p db))"
  by (simp add: delete_user_def delete_by_id_def)

theorem delete_idempotent_witness:
  "snd (delete_user ''3'' sample_db) =
     \<lparr>users_table = [\<lparr>user_id = 1, username = ''alice'', email = ''alice@example.com'', age = 30,
          created_at = ''2024-01-01 10:00:00''\<rparr>], sqlite_sequence = 3\<rparr> \<and>
   delete_user ''3'' (snd (delete_user ''3'' sample_db)) =
     (\<lparr>status = 200, success = True, message = Some ''User deleted successfully'',
       user = None, users = None\<rparr>, snd (delete_user ''3'' sample_db)) \<and>
   delete_user ''abc'' sample_db =
     (\<lparr>status = 200, success = True, message = Some ''User deleted successfully'',
       user = None, users = None\<rparr>, sample_db)"
proof -
  have three: "parseInt ''3'' = Some 3" by code_simp
  have abc: "parseInt ''abc'' = None" by code_simp
  from delete_idempotent [of "''3''" sample_db]
  show ?thesis
    by (simp add: delete_user_def delete_by_id_def three abc sample_db_def)
qed

section \<open>Ids over a run of requests\<close>

text \<open>What one POST does to the table, in every case.\<close>

lemma post_users_cases:
  assumes "post_users b now db = (r, db1)"
  shows "(db1 = db \<and> status r \<noteq> 201) \<or>
         (\<exists>u e a. status r = 201 \<and>
            user r = Some \<lparr>user_id = new_rowid db, username = u, email = e, age = a, created_at = now\<rparr> \<and>
            db1 = \<lparr>users_table = users_table db @
                     [\<lparr>user_id = new_rowid db, username = u, email = e, age = a, created_at = now\<rparr>],
                   sqlite_sequence = new_rowid db\<rparr>)"
proof (cases "not_string (body_username b) \<or> not_string (body_email b) \<or> not_number (body_age b)")
  case True
  with assms show ?thesis by (auto simp: post_users_def failure_def)
next
  case False
  then obtain u e a where f: "body_username b = Some u" "body_email b = Some e" "body_age b = Some a"
    by (auto simp: not_string_def not_number_def split: option.splits)
  show ?thesis
  proof (cases "a < 1 \<or> a > 150")
    case True
    with assms False f show ?thesis by (auto simp: post_users_def failure_def)
  next
    case range: False
    show ?thesis
    proof (cases "u \<in> username ` set (users_table db) \<or> e \<in> email ` set (users_table db)")
      case True
      then have "insert_user db u e a now = Inl ''UNIQUE constraint failed: users.username'' \<or>
                 insert_user db u e a now = Inl ''UNIQUE constraint failed: users.email''"
        by (auto simp: insert_user_def)
      with assms False f range show ?thesis
        by (auto simp: post_users_def failure_def catch_unique_username catch_unique_email)
    next
      case fresh: False
      from False f have "u \<noteq> []" "e \<noteq> []" by (auto simp: not_string_def)
      from post_users_created [OF this, of a db now] range fresh f assms
      have "r = \<lparr>status = 201, success = True, message = Some ''User registered successfully'',
          user = Some \<lparr>user_id = new_rowid db, username = u, email = e, age = a, created_at = now\<rparr>,
          users = None\<rparr> \<and>
         db1 = \<lparr>users_table = users_table db @
            [\<lparr>user_id = new_rowid db, username = u, email = e, age = a, created_at = now\<rparr>],
          sqlite_sequence = new_rowid db\<rparr>"
        by (cases b) auto
      then show ?thesis by auto
    qed
  qed
qed

text \<open>One request: the counter still covers the table and never falls, a created user
  has the counter's new value as its id, and every row left is an old row or that user.\<close>

lemma handle_step:
  assumes "handle q db = (r, db1)" and "sequence_covers db"
  shows "sequence_covers db1 \<and> sqlite_sequence db \<le> sqlite_sequence db1 \<and>
         (case created_user q r of
            None \<Rightarrow> set (users_table db1) \<subseteq> set (users_table db)
          | Some u \<Rightarrow> sqlite_sequence db < user_id u \<and> sqlite_sequence db1 = user_id u \<and>
              set (users_table db1) \<subseteq> insert u (set (users_table db)))"
proof (cases q)
  case (PostUsers b now)
  with assms(1) have "post_users b now db = (r, db1)" by simp
  from post_users_cases [OF this] show ?thesis
  proof
    assume "db1 = db \<and> status r \<noteq> 201"
    with assms(2) PostUsers show ?thesis by simp
  next
    assume "\<exists>u e a. status r = 201 \<and>
            user r = Some \<lparr>user_id = new_rowid db, username = u, email = e, age = a, created_at = now\<rparr> \<and>
            db1 = \<lparr>users_table = users_table db @
                     [\<lparr>user_id = new_rowid db, username = u, email = e, age = a, created_at = now\<rparr>],
                   sqlite_sequence = new_rowid db\<rparr>"
    then obtain u e a where c: "status r = 201"
      "user r = Some \<lparr>user_id = new_rowid db, username = u, email = e, age = a, created_at = now\<rparr>"
      "db1 = \<lparr>users_table = users_table db @
                     [\<lparr>user_id = new_rowid db, username = u, email = e, age = a, created_at = now\<rparr>],
                   sqlite_sequence = new_rowid db\<rparr>" by blast
    have cov: "sequence_covers db1"
      using assms(2) c(3) new_rowid_gt_seq [of db]
      by (fastforce simp: sequence_covers_def list_all_iff)
    show ?thesis
      using cov c PostUsers new_rowid_gt_seq [of db] by auto
  qed
next
  case GetUsers
  with assms show ?thesis by auto
next
  case (GetUserById p)
  with assms show ?thesis by auto
next
  case (GetUserByUsername p)
  with assms show ?thesis by auto
next
  case (DeleteUser p)
  with assms show ?thesis
    by (auto simp: delete_user_def delete_by_id_def sequence_covers_def list_all_iff)
next
  case DeleteUsers
  with assms show ?thesis
    by (auto simp: delete_users_def delete_all_def sequence_covers_def)
qed

lemma serve_ids:
  assumes "sequence_covers db" and "serve qs db = (rs, db2)"
  shows "sequence_covers db2 \<and> sqlite_sequence db \<le> sqlite_sequence db2 \<and>
         sorted_wrt (<) (map user_id (created_users qs rs)) \<and>
         (\<forall>u \<in> set (created_users qs rs).
            sqlite_sequence db < user_id u \<and> user_id u \<le> sqlite_sequence db2) \<and>
         set (users_table db2) \<subseteq> set (users_table db) \<union> set (created_users qs rs)"
  using assms
proof (induction qs arbitrary: db rs db2)
  case Nil
  then show ?case by simp
next
  case (Cons q qs)
  obtain r db1 where h: "handle q db = (r, db1)" by (cases "handle q db")
  obtain rs1 db3 where s: "serve qs db1 = (rs1, db3)" by (cases "serve qs db1")
  from Cons.prems(2) h s have eq: "rs = r # rs1" "db2 = db3" by auto
  note step = handle_step [OF h Cons.prems(1)]
  from step have cov1: "sequence_covers db1" by simp
  note ih = Cons.IH [OF cov1 s]
  show ?case
  proof (cases "created_user q r")
    case None
    with step ih eq show ?thesis by auto
  next
    case (Some u)
    with step have u: "sqlite_sequence db < user_id u" "sqlite_sequence db1 = user_id u"
      "set (users_table db1) \<subseteq> insert u (set (users_table db))" by auto
    have later: "\<forall>w \<in> set (created_users qs rs1). user_id u < user_id w"
      using ih u(2) by auto
    show ?thesis
      using Some ih eq u later step by (auto simp: eq)
  qed
qed

text \<open>A new database has the property, and \<open>serve_ids\<close> keeps it.\<close>

lemma initDatabase_new_covers: "sequence_covers (initDatabase None)"
  by (simp add: initDatabase_def sequence_covers_def)

text \<open>
  \<^bold>\<open>C8\<close> (ids are never reused). Start from a database whose counter covers its table,
  as SQLite keeps it, and serve any sequence of requests. Then the ids of the users
  created, in the order of their creation, strictly increase, so no two are equal; each
  lies above the counter at the start and not above the counter at the end, and differs
  from the id of every row the table had at the start, deleted since or not; and every
  row of the final table is a row of the
  first table or a created user exactly as it was returned, so no row changed its id.
\<close>

theorem ids_never_reused:
  assumes "sequence_covers db" and "serve qs db = (rs, db')"
  shows "sorted_wrt (<) (map user_id (created_users qs rs)) \<and>
         distinct (map user_id (created_users qs rs)) \<and>
         (\<forall>u \<in> set (created_users qs rs).
            sqlite_sequence db < user_id u \<and> user_id u \<le> sqlite_sequence db' \<and>
            user_id u \<notin> user_id ` set (users_table db)) \<and>
         set (users_table db') \<subseteq> set (users_table db) \<union> set (created_users qs rs)"
proof -
  note s = serve_ids [OF assms]
  have d: "distinct (map user_id (created_users qs rs))"
    using s strict_sorted_iff by blast
  have old: "\<forall>r \<in> set (users_table db). user_id r \<le> sqlite_sequence db"
    using assms(1) by (simp add: sequence_covers_def list_all_iff)
  have "\<forall>u \<in> set (created_users qs rs). user_id u \<notin> user_id ` set (users_table db)"
    using s old by fastforce
  with s d show ?thesis by simp
qed

theorem ids_never_reused_witness:
  "sequence_covers sample_db \<and>
   map user_id (created_users sample_requests (fst (serve sample_requests sample_db))) = [4, 5] \<and>
   map user_id (users_table (snd (serve sample_requests sample_db))) = [1, 3, 5] \<and>
   sorted_wrt (<) (map user_id (created_users sample_requests (fst (serve sample_requests sample_db)))) \<and>
   distinct (map user_id (created_users sample_requests (fst (serve sample_requests sample_db)))) \<and>
   set (users_table (snd (serve sample_requests sample_db))) \<subseteq>
     set (users_table sample_db) \<union>
     set (created_users sample_requests (fst (serve sample_requests sample_db)))"
proof -
  have h: "sequence_covers sample_db"
    by (simp add: sequence_covers_def sample_db_def)
  have c: "map user_id (created_users sample_requests (fst (serve sample_requests sample_db))) = [4, 5]"
    by code_simp
  have t: "map user_id (users_table (snd (serve sample_requests sample_db))) = [1, 3, 5]"
    by code_simp
  from ids_never_reused [OF h, of sample_requests "fst (serve sample_requests sample_db)"
      "snd (serve sample_requests sample_db)"] h c t
  show ?thesis by simp
qed

section \<open>What the form shows\<close>

lemma formData_sample_page:
  "formData sample_page =
     \<lparr>body_username = Some ''alice'', body_email = Some ''alice@example.com'', body_age = Some 25\<rparr>"
proof -
  have "trim ''alice'' = ''alice''" "trim ''alice@example.com'' = ''alice@example.com''"
    "parseInt ''25'' = Some 25"
    by code_simp+
  then show ?thesis
    by (simp add: formData_def sample_page_def)
qed

lemma post_users_new_database:
  "post_users
     \<lparr>body_username = Some ''alice'', body_email = Some ''alice@example.com'', body_age = Some 25\<rparr>
     now (initDatabase None) =
   (\<lparr>status = 201, success = True, message = Some ''User registered successfully'',
     user = Some \<lparr>user_id = 1, username = ''alice'', email = ''alice@example.com'', age = 25,
              created_at = now\<rparr>,
     users = None\<rparr>,
    \<lparr>users_table = [\<lparr>user_id = 1, username = ''alice'', email = ''alice@example.com'', age = 25,
                     created_at = now\<rparr>],
     sqlite_sequence = 1\<rparr>)"
  using post_users_created [of "''alice''" "''alice@example.com''" 25 "initDatabase None" now]
  by (simp add: initDatabase_def new_rowid_def)

text \<open>
  \<^bold>\<open>C9\<close>, as the script has it. After an answer with success and a user, the page
  shows four fields of that user, the id, the username, the email and the age, each the
  value of the answer whatever the inputs of the form held; the panel is visible and the
  form is hidden. After an answer without success, the message box shows the answer's
  message as it is, with the classes \<^verbatim>\<open>message error\<close>. The answer's
  \<^verbatim>\<open>created_at\<close> is put nowhere on the page: an answer that differs from another
  only in the \<^verbatim>\<open>created_at\<close> of its user leaves the same page, in every part.
\<close>

theorem submit_renders_response:
  "(fetch (formData d) = Some data \<and> success data \<and> user data = Some u \<longrightarrow>
      userId (submit fetch d) = NumberText (of_int (user_id u)) \<and>
      displayUsername (submit fetch d) = Text (username u) \<and>
      displayEmail (submit fetch d) = Text (email u) \<and>
      displayAge (submit fetch d) = NumberText (age u) \<and>
      ''hidden'' \<notin> set (userInfo_classes (submit fetch d)) \<and>
      ''hidden'' \<in> set (form_classes (submit fetch d))) \<and>
   (fetch (formData d) = Some data \<and> \<not> success data \<longrightarrow>
      message_text (submit fetch d) = (case message data of None \<Rightarrow> [] | Some m \<Rightarrow> m) \<and>
      message_classes (submit fetch d) = [''message'', ''error'']) \<and>
   (fetch (formData d) = Some data \<and> user data = Some u \<and>
    fetch' (formData d) = Some (data\<lparr>user := Some (u\<lparr>created_at := t\<rparr>)\<rparr>) \<longrightarrow>
      submit fetch' d = submit fetch d)"
  by (simp add: submit_def Let_def showMessage_def classList_add_def classList_remove_def)

theorem submit_renders_response_witness:
  "userId (submit (fetch_api (initDatabase None) ''2024-06-01 12:00:00'') sample_page) = NumberText 1 \<and>
   displayUsername (submit (fetch_api (initDatabase None) ''2024-06-01 12:00:00'') sample_page) =
     Text ''alice'' \<and>
   displayEmail (submit (fetch_api (initDatabase None) ''2024-06-01 12:00:00'') sample_page) =
     Text ''alice@example.com'' \<and>
   displayAge (submit (fetch_api (initDatabase None) ''2024-06-01 12:00:00'') sample_page) =
     NumberText 25 \<and>
   submit (fetch_api (initDatabase None) ''2031-12-24 18:00:00'') sample_page =
     submit (fetch_api (initDatabase None) ''2024-06-01 12:00:00'') sample_page \<and>
   message_text (submit (fetch_api sample_db ''2024-06-01 12:00:00'') sample_page) =
     ''Username or email already exists'' \<and>
   message_classes (submit (fetch_api sample_db ''2024-06-01 12:00:00'') sample_page) =
     [''message'', ''error'']"
proof -
  let ?u = "\<lparr>user_id = 1, username = ''alice'', email = ''alice@example.com'', age = 25,
             created_at = ''2024-06-01 12:00:00''\<rparr>"
  let ?ok = "\<lparr>status = 201, success = True, message = Some ''User registered successfully'',
              user = Some ?u, users = None\<rparr>"
  let ?no = "\<lparr>status = 409, success = False, message = Some ''Username or email already exists'',
              user = None, users = None\<rparr>"
  have ok: "fetch_api (initDatabase None) ''2024-06-01 12:00:00'' (formData sample_page) = Some ?ok"
    by (simp add: fetch_api_def formData_sample_page post_users_new_database)
  have later: "fetch_api (initDatabase None) ''2031-12-24 18:00:00'' (formData sample_page) =
      Some (?ok\<lparr>user := Some (?u\<lparr>created_at := ''2031-12-24 18:00:00''\<rparr>)\<rparr>)"
    by (simp add: fetch_api_def formData_sample_page post_users_new_database)
  have no: "fetch_api sample_db ''2024-06-01 12:00:00'' (formData sample_page) = Some ?no"
    by (simp add: fetch_api_def formData_sample_page post_users_def not_string_def not_number_def
        insert_user_def sample_db_def catch_unique_username failure_def)
  from submit_renders_response [of "fetch_api (initDatabase None) ''2024-06-01 12:00:00''"
      sample_page ?ok ?u "fetch_api (initDatabase None) ''2031-12-24 18:00:00''"
      "''2031-12-24 18:00:00''"]
    submit_renders_response [of "fetch_api sample_db ''2024-06-01 12:00:00''" sample_page ?no ?u
      "fetch_api sample_db ''2024-06-01 12:00:00''" "[]"]
    ok later no
  show ?thesis by simp
qed

text \<open>
  \<^bold>\<open>C9\<close>, as it is worded, has the page show the timestamp of the created user. Two
  registrations of the same form against a new database, at two times of the clock, get
  answers with two different \<^verbatim>\<open>created_at\<close>; the pages after them are equal, and the
  texts on the page are the id, the username, the email, the age and the label of the
  button, with no timestamp among them.
\<close>

theorem timestamp_not_rendered:
  "map_option created_at (user (fst (post_users (formData sample_page) ''2024-01-01 10:00:00''
      (initDatabase None)))) = Some ''2024-01-01 10:00:00'' \<and>
   map_option created_at (user (fst (post_users (formData sample_page) ''2025-06-30 23:59:59''
      (initDatabase None)))) = Some ''2025-06-30 23:59:59'' \<and>
   submit (fetch_api (initDatabase None) ''2024-01-01 10:00:00'') sample_page =
   submit (fetch_api (initDatabase None) ''2025-06-30 23:59:59'') sample_page \<and>
   shown_texts (submit (fetch_api (initDatabase None) ''2024-01-01 10:00:00'') sample_page) =
     [Text [], NumberText 1, Text ''alice'', Text ''alice@example.com'', NumberText 25,
      Text ''Register User'']"
  by (simp add: submit_def fetch_api_def formData_sample_page post_users_new_database
      shown_texts_def Let_def)
    (simp add: sample_page_def classList_add_def classList_remove_def)

end
